theory Spec2Isabelle
  imports Main "HOL-Library.Word"
begin

unbundle bit_operations_syntax

section \<open>Data model of Adafruit\_SPITFT (hybrid hardware-SPI + parallel variant)\<close>

text \<open>
  The C++ integer types. \<open>int16_t\<close> values are 16-bit words read with \<open>sint\<close>.
  Arithmetic on them is done in \<open>int\<close> after the integer promotions (\<open>int\<close> has 32
  bits on the boards this library targets, and no expression below leaves that range),
  and a result stored back into an \<open>int16_t\<close> is narrowed modulo \<open>2^16\<close>.
\<close>

type_synonym uint8 = "8 word"
type_synonym int8 = "8 word"
type_synonym uint16 = "16 word"
type_synonym int16 = "16 word"
type_synonym uint32 = "32 word"

definition i16 :: "int \<Rightarrow> int16" where
  "i16 k = word_of_int k"

datatype bit_order = LSBFIRST | MSBFIRST

datatype data_mode = SPI_MODE0 | SPI_MODE1 | SPI_MODE2 | SPI_MODE3

record SPISettings =
  clock :: uint32
  bitOrder :: bit_order
  dataMode :: data_mode

datatype level = LOW | HIGH

text \<open>
  Everything the driver does to the outside world is an event: calls on the transport
  peripheral (\<open>hwspi._spi\<close>), on the digital pins, on the serial console, and the call of
  the subclass's \<open>setAddrWindow\<close> (pure virtual here). \<open>SPI_CS_HIGH\<close>, \<open>SPI_CS_LOW\<close>,
  \<open>SPI_DC_HIGH\<close> and \<open>SPI_DC_LOW\<close> are inline functions of the class header; each is one
  event. A member function is modelled by the list of events it issues, in order.
\<close>

datatype event =
    BeginTransaction SPISettings
  | EndTransaction
  | Transfer uint8
  | SerialPrintln int
  | DigitalWrite int8 level
  | CsHigh
  | CsLow
  | DcHigh
  | DcLow
  | SetAddrWindow uint16 uint16 uint16 uint16

record spitft =
  gfx_width :: int16
  gfx_height :: int16
  hwspi_settings :: SPISettings
  tft8_wr :: int8
  tft8_rd :: int8

text \<open>Memory of 16-bit pixels, and of bytes, addressed in elements.\<close>

type_synonym pixel_memory = "int \<Rightarrow> uint16"
type_synonym byte_memory = "int \<Rightarrow> uint8"

section \<open>Transfer settings\<close>

text \<open>
  \<open>setSPISpeed(freq)\<close>. \<open>DEFAULT_SPI_FREQ\<close> is a macro of the class header and is taken
  as a parameter.
\<close>

definition setSPISpeed :: "uint32 \<Rightarrow> spitft \<Rightarrow> uint32 \<Rightarrow> spitft" where
  "setSPISpeed DEFAULT_SPI_FREQ st freq =
     st\<lparr>hwspi_settings :=
          \<lparr>clock = DEFAULT_SPI_FREQ, bitOrder = MSBFIRST, dataMode = SPI_MODE0\<rparr>\<rparr>"

section \<open>Lowest-level hardware interfacing\<close>

definition TFT_WR_STROBE :: "spitft \<Rightarrow> event list" where
  "TFT_WR_STROBE st = [DigitalWrite (tft8_wr st) LOW, DigitalWrite (tft8_wr st) HIGH]"

definition TFT_CS_STROBE :: "event list" where
  "TFT_CS_STROBE = [CsHigh, CsLow]"

definition SPI_BEGIN_TRANSACTION :: "spitft \<Rightarrow> event list" where
  "SPI_BEGIN_TRANSACTION st = [BeginTransaction (hwspi_settings st)]"

definition SPI_END_TRANSACTION :: "spitft \<Rightarrow> event list" where
  "SPI_END_TRANSACTION st = [EndTransaction] @ TFT_CS_STROBE @ TFT_WR_STROBE st"

definition startWrite :: "spitft \<Rightarrow> event list" where
  "startWrite st = SPI_BEGIN_TRANSACTION st"

definition endWrite :: "spitft \<Rightarrow> event list" where
  "endWrite st = SPI_END_TRANSACTION st"

text \<open>\<open>spiWrite(b)\<close>: \<open>transfer\<close> is called twice with \<open>b\<close>.\<close>

definition spiWrite :: "spitft \<Rightarrow> uint8 \<Rightarrow> event list" where
  "spiWrite st b =
     SPI_BEGIN_TRANSACTION st
     @ [Transfer b, Transfer b, SerialPrintln (uint (0x00FF AND (ucast b :: uint16)))]
     @ SPI_END_TRANSACTION st"

text \<open>
  \<open>SPI_WRITE16(w)\<close>: \<open>w >> 8\<close> and \<open>w & 0xFF\<close> are \<open>int\<close>s; \<open>transfer\<close> takes a
  \<open>uint8_t\<close>, so each is narrowed to its low byte.
\<close>

definition SPI_WRITE16 :: "spitft \<Rightarrow> uint16 \<Rightarrow> event list" where
  "SPI_WRITE16 st w =
     SPI_BEGIN_TRANSACTION st
     @ [SerialPrintln (uint (drop_bit 8 w AND 0x00FF)),
        SerialPrintln (uint (w AND 0x00FF)),
        Transfer (ucast (drop_bit 8 w)),
        Transfer (ucast (w AND 0xFF))]
     @ SPI_END_TRANSACTION st"

definition SPI_WRITE32 :: "spitft \<Rightarrow> uint32 \<Rightarrow> event list" where
  "SPI_WRITE32 st l =
     SPI_BEGIN_TRANSACTION st
     @ [SerialPrintln (uint (ucast (drop_bit 24 l) :: uint8)),
        SerialPrintln (uint (ucast (drop_bit 16 l) :: uint8)),
        Transfer (ucast (drop_bit 24 l)),
        Transfer (ucast (drop_bit 16 l))]
     @ SPI_END_TRANSACTION st
     @ SPI_BEGIN_TRANSACTION st
     @ [SerialPrintln (uint (ucast (drop_bit 8 l) :: uint8)),
        SerialPrintln (uint (ucast l :: uint8)),
        Transfer (ucast (drop_bit 8 l)),
        Transfer (ucast l)]
     @ SPI_END_TRANSACTION st"

section \<open>Colour packing and byte swapping\<close>

text \<open>
  \<open>color565\<close>: the three \<open>uint8_t\<close> arguments are promoted to \<open>int\<close>, the expression is
  evaluated there, and the result is narrowed to the \<open>uint16_t\<close> return type.
\<close>

definition color565 :: "uint8 \<Rightarrow> uint8 \<Rightarrow> uint8 \<Rightarrow> uint16" where
  "color565 red green blue =
     ucast (push_bit 8 ((ucast red :: 32 word) AND 0xF8)
            OR push_bit 3 ((ucast green :: 32 word) AND 0xFC)
            OR drop_bit 3 (ucast blue :: 32 word))"

text \<open>The same formula read on 16-bit values, as the specification writes it.\<close>

definition color565_spec :: "uint8 \<Rightarrow> uint8 \<Rightarrow> uint8 \<Rightarrow> uint16" where
  "color565_spec red green blue =
     push_bit 8 (ucast (red AND 0xF8)) OR push_bit 3 (ucast (green AND 0xFC))
     OR ucast (drop_bit 3 blue)"

definition bswap16 :: "uint16 \<Rightarrow> uint16" where
  "bswap16 v = push_bit 8 v OR drop_bit 8 v"

text \<open>
  \<open>swapBytes(src, len, dest)\<close> on the pixel memory. \<open>dest = None\<close> is the NULL pointer.
  The counter \<open>i\<close> is a \<open>uint32_t\<close> that stays below \<open>len\<close>, so it never wraps and is
  a natural number here.
\<close>

function swapBytes_loop :: "pixel_memory \<Rightarrow> int \<Rightarrow> int \<Rightarrow> nat \<Rightarrow> nat \<Rightarrow> pixel_memory" where
  "swapBytes_loop mem src dest i len =
     (if i < len
      then swapBytes_loop (mem(dest + int i := bswap16 (mem (src + int i)))) src dest (Suc i) len
      else mem)"
  by pat_completeness auto
termination
  by (relation "measure (\<lambda>(mem, src, dest, i, len). len - i)") auto

declare swapBytes_loop.simps [simp del]

definition swapBytes :: "pixel_memory \<Rightarrow> int \<Rightarrow> uint32 \<Rightarrow> int option \<Rightarrow> pixel_memory" where
  "swapBytes mem src len dest =
     (let dest = (case dest of None \<Rightarrow> src | Some d \<Rightarrow> d)
      in swapBytes_loop mem src dest 0 (unat len))"

section \<open>Lower-level graphics operations\<close>

definition setAddrWindow :: "int16 \<Rightarrow> int16 \<Rightarrow> int16 \<Rightarrow> int16 \<Rightarrow> event list" where
  "setAddrWindow x y w h = [SetAddrWindow x y w h]"

definition writePixel :: "spitft \<Rightarrow> int16 \<Rightarrow> int16 \<Rightarrow> uint16 \<Rightarrow> event list" where
  "writePixel st x y color =
     (if 0 \<le> sint x \<and> sint x < sint (gfx_width st) \<and> 0 \<le> sint y \<and> sint y < sint (gfx_height st)
      then setAddrWindow x y 1 1 @ SPI_WRITE16 st color
      else [])"

text \<open>\<open>while (len--)\<close> on a \<open>uint32_t\<close>: the body runs until the counter reaches zero.\<close>

function writePixels_loop :: "spitft \<Rightarrow> pixel_memory \<Rightarrow> int \<Rightarrow> uint32 \<Rightarrow> event list" where
  "writePixels_loop st mem colors len =
     (if len = 0 then []
      else SPI_WRITE16 st (mem colors) @ writePixels_loop st mem (colors + 1) (len - 1))"
  by pat_completeness auto
termination
  by (relation "measure (\<lambda>(st, mem, colors, len). unat len)") (auto simp: measure_unat)

declare writePixels_loop.simps [simp del]

definition writePixels :: "spitft \<Rightarrow> pixel_memory \<Rightarrow> int \<Rightarrow> uint32 \<Rightarrow> event list" where
  "writePixels st mem colors len =
     (if len = 0 then [] else writePixels_loop st mem colors len)"

function writeColor_loop :: "spitft \<Rightarrow> uint16 \<Rightarrow> uint32 \<Rightarrow> event list" where
  "writeColor_loop st color len =
     (if len = 0 then []
      else SPI_WRITE16 st color @ writeColor_loop st color (len - 1))"
  by pat_completeness auto
termination
  by (relation "measure (\<lambda>(st, color, len). unat len)") (auto simp: measure_unat)

declare writeColor_loop.simps [simp del]

definition writeColor :: "spitft \<Rightarrow> uint16 \<Rightarrow> uint32 \<Rightarrow> event list" where
  "writeColor st color len =
     (if len = 0 then [] else writeColor_loop st color len)"

text \<open>
  \<open>writeFillRectPreclipped\<close>: \<open>(uint32_t)w * h\<close> converts both \<open>int16_t\<close> operands to
  \<open>uint32_t\<close> (sign extension) and multiplies modulo \<open>2^32\<close>.
\<close>

definition writeFillRectPreclipped ::
  "spitft \<Rightarrow> int16 \<Rightarrow> int16 \<Rightarrow> int16 \<Rightarrow> int16 \<Rightarrow> uint16 \<Rightarrow> event list" where
  "writeFillRectPreclipped st x y w h color =
     setAddrWindow x y w h @ writeColor st color ((scast w :: uint32) * scast h)"

definition writeFillRect ::
  "spitft \<Rightarrow> int16 \<Rightarrow> int16 \<Rightarrow> int16 \<Rightarrow> int16 \<Rightarrow> uint16 \<Rightarrow> event list" where
  "writeFillRect st x y w h color =
     (if w \<noteq> 0 \<and> h \<noteq> 0 then
        let (x, w) = (if sint w < 0 then (i16 (sint x + (sint w + 1)), i16 (- sint w)) else (x, w))
        in if sint x < sint (gfx_width st) then
             let (y, h) = (if sint h < 0 then (i16 (sint y + (sint h + 1)), i16 (- sint h)) else (y, h))
             in if sint y < sint (gfx_height st) then
                  let x2 = i16 (sint x + sint w - 1)
                  in if 0 \<le> sint x2 then
                       let y2 = i16 (sint y + sint h - 1)
                       in if 0 \<le> sint y2 then
                            let (x, w) = (if sint x < 0 then (0, i16 (sint x2 + 1)) else (x, w));
                                (y, h) = (if sint y < 0 then (0, i16 (sint y2 + 1)) else (y, h));
                                w = (if sint (gfx_width st) \<le> sint x2
                                     then i16 (sint (gfx_width st) - sint x) else w);
                                h = (if sint (gfx_height st) \<le> sint y2
                                     then i16 (sint (gfx_height st) - sint y) else h)
                            in writeFillRectPreclipped st x y w h color
                          else []
                     else []
                else []
           else []
      else [])"

section \<open>Self-contained graphics operations\<close>

definition drawPixel :: "spitft \<Rightarrow> int16 \<Rightarrow> int16 \<Rightarrow> uint16 \<Rightarrow> event list" where
  "drawPixel st x y color =
     (if 0 \<le> sint x \<and> sint x < sint (gfx_width st) \<and> 0 \<le> sint y \<and> sint y < sint (gfx_height st)
      then setAddrWindow x y 1 1 @ SPI_WRITE16 st color
      else [])"

definition fillRect ::
  "spitft \<Rightarrow> int16 \<Rightarrow> int16 \<Rightarrow> int16 \<Rightarrow> int16 \<Rightarrow> uint16 \<Rightarrow> event list" where
  "fillRect st x y w h color =
     (if w \<noteq> 0 \<and> h \<noteq> 0 then
        let (x, w) = (if sint w < 0 then (i16 (sint x + (sint w + 1)), i16 (- sint w)) else (x, w))
        in if sint x < sint (gfx_width st) then
             let (y, h) = (if sint h < 0 then (i16 (sint y + (sint h + 1)), i16 (- sint h)) else (y, h))
             in if sint y < sint (gfx_height st) then
                  let x2 = i16 (sint x + sint w - 1)
                  in if 0 \<le> sint x2 then
                       let y2 = i16 (sint y + sint h - 1)
                       in if 0 \<le> sint y2 then
                            let (x, w) = (if sint x < 0 then (0, i16 (sint x2 + 1)) else (x, w));
                                (y, h) = (if sint y < 0 then (0, i16 (sint y2 + 1)) else (y, h));
                                w = (if sint (gfx_width st) \<le> sint x2
                                     then i16 (sint (gfx_width st) - sint x) else w);
                                h = (if sint (gfx_height st) \<le> sint y2
                                     then i16 (sint (gfx_height st) - sint y) else h)
                            in writeFillRectPreclipped st x y w h color
                          else []
                     else []
                else []
           else []
      else [])"

definition drawFastHLine :: "spitft \<Rightarrow> int16 \<Rightarrow> int16 \<Rightarrow> int16 \<Rightarrow> uint16 \<Rightarrow> event list" where
  "drawFastHLine st x y w color =
     (if 0 \<le> sint y \<and> sint y < sint (gfx_height st) \<and> w \<noteq> 0 then
        let (x, w) = (if sint w < 0 then (i16 (sint x + (sint w + 1)), i16 (- sint w)) else (x, w))
        in if sint x < sint (gfx_width st) then
             let x2 = i16 (sint x + sint w - 1)
             in if 0 \<le> sint x2 then
                  let (x, w) = (if sint x < 0 then (0, i16 (sint x2 + 1)) else (x, w));
                      w = (if sint (gfx_width st) \<le> sint x2
                           then i16 (sint (gfx_width st) - sint x) else w)
                  in writeFillRectPreclipped st x y w 1 color
                else []
           else []
      else [])"

definition drawFastVLine :: "spitft \<Rightarrow> int16 \<Rightarrow> int16 \<Rightarrow> int16 \<Rightarrow> uint16 \<Rightarrow> event list" where
  "drawFastVLine st x y h color =
     (if 0 \<le> sint x \<and> sint x < sint (gfx_width st) \<and> h \<noteq> 0 then
        let (y, h) = (if sint h < 0 then (i16 (sint y + (sint h + 1)), i16 (- sint h)) else (y, h))
        in if sint y < sint (gfx_height st) then
             let y2 = i16 (sint y + sint h - 1)
             in if 0 \<le> sint y2 then
                  let (y, h) = (if sint y < 0 then (0, i16 (sint y2 + 1)) else (y, h));
                      h = (if sint (gfx_height st) \<le> sint y2
                           then i16 (sint (gfx_height st) - sint y) else h)
                  in writeFillRectPreclipped st x y 1 h color
                else []
           else []
      else [])"

text \<open>
  \<open>drawRGBBitmap\<close>. The row loop is \<open>while (h--)\<close> on an \<open>int16_t\<close>: it stops when the
  counter is zero and the decrement is narrowed modulo \<open>2^16\<close>. \<open>writePixels(pcolors, w)\<close>
  converts \<open>w\<close> to its \<open>uint32_t\<close> parameter.
\<close>

function drawRGBBitmap_rows ::
  "spitft \<Rightarrow> pixel_memory \<Rightarrow> int \<Rightarrow> int16 \<Rightarrow> int16 \<Rightarrow> int16 \<Rightarrow> event list" where
  "drawRGBBitmap_rows st mem pcolors w saveW h =
     (if h = 0 then []
      else writePixels st mem pcolors (scast w)
           @ drawRGBBitmap_rows st mem (pcolors + sint saveW) w saveW (h - 1))"
  by pat_completeness auto
termination
  by (relation "measure (\<lambda>(st, mem, pcolors, w, saveW, h). unat h)") (auto simp: measure_unat)

declare drawRGBBitmap_rows.simps [simp del]

definition drawRGBBitmap ::
  "spitft \<Rightarrow> pixel_memory \<Rightarrow> int16 \<Rightarrow> int16 \<Rightarrow> int \<Rightarrow> int16 \<Rightarrow> int16 \<Rightarrow> event list" where
  "drawRGBBitmap st mem x y pcolors w h =
     (let x2 = i16 (sint x + sint w - 1);
          y2 = i16 (sint y + sint h - 1)
      in if sint (gfx_width st) \<le> sint x \<or> sint (gfx_height st) \<le> sint y
            \<or> sint x2 < 0 \<or> sint y2 < 0
         then []
         else
           let saveW = w;
               (x, w, bx1) = (if sint x < 0 then (0, i16 (sint w + sint x), i16 (- sint x))
                              else (x, w, 0));
               (y, h, by1) = (if sint y < 0 then (0, i16 (sint h + sint y), i16 (- sint y))
                              else (y, h, 0));
               w = (if sint (gfx_width st) \<le> sint x2
                    then i16 (sint (gfx_width st) - sint x) else w);
               h = (if sint (gfx_height st) \<le> sint y2
                    then i16 (sint (gfx_height st) - sint y) else h);
               pcolors = pcolors + (sint by1 * sint saveW + sint bx1)
           in setAddrWindow x y w h @ drawRGBBitmap_rows st mem pcolors w saveW h)"

section \<open>Command dispatch\<close>

text \<open>
  \<open>sendCommand(uint8_t, uint8_t *, uint8_t)\<close>, the overload with a non-const payload
  pointer. The counter \<open>i\<close> is an \<open>int\<close>; \<open>SPI_WRITE16(commandByte)\<close> widens the
  command byte to the \<open>uint16_t\<close> parameter.
\<close>

function sendCommand_loop :: "spitft \<Rightarrow> uint8 \<Rightarrow> int \<Rightarrow> uint8 \<Rightarrow> event list" where
  "sendCommand_loop st commandByte i numDataBytes =
     (if i < uint numDataBytes
      then SPI_BEGIN_TRANSACTION st @ SPI_WRITE16 st (ucast commandByte) @ SPI_END_TRANSACTION st
           @ sendCommand_loop st commandByte (i + 1) numDataBytes
      else [])"
  by pat_completeness auto
termination
  by (relation "measure (\<lambda>(st, commandByte, i, numDataBytes). nat (uint numDataBytes - i))") auto

declare sendCommand_loop.simps [simp del]

definition sendCommand :: "spitft \<Rightarrow> byte_memory \<Rightarrow> uint8 \<Rightarrow> int \<Rightarrow> uint8 \<Rightarrow> event list" where
  "sendCommand st mem commandByte dataBytes numDataBytes =
     [DcLow] @ spiWrite st commandByte @ [DcHigh]
     @ sendCommand_loop st commandByte 0 numDataBytes"

section \<open>What a bus observer sees\<close>

text \<open>The bytes clocked out on the transport peripheral, in order.\<close>

fun bus_bytes :: "event list \<Rightarrow> uint8 list" where
  "bus_bytes [] = []"
| "bus_bytes (Transfer b # es) = b # bus_bytes es"
| "bus_bytes (e # es) = bus_bytes es"

text \<open>
  The trace cut into transaction brackets: the bytes transferred between each
  \<open>beginTransaction\<close> and the next \<open>endTransaction\<close>. \<open>None\<close> when a bracket is opened
  inside another, closed without being open, left open, or a byte is transferred outside
  every bracket.
\<close>

fun brackets :: "event list \<Rightarrow> uint8 list option \<Rightarrow> uint8 list list option" where
  "brackets [] None = Some []"
| "brackets [] (Some bs) = None"
| "brackets (BeginTransaction s # es) None = brackets es (Some [])"
| "brackets (BeginTransaction s # es) (Some bs) = None"
| "brackets (EndTransaction # es) None = None"
| "brackets (EndTransaction # es) (Some bs) = map_option ((#) bs) (brackets es None)"
| "brackets (Transfer b # es) None = None"
| "brackets (Transfer b # es) (Some bs) = brackets es (Some (bs @ [b]))"
| "brackets (e # es) cur = brackets es cur"

definition bus_transactions :: "event list \<Rightarrow> uint8 list list option" where
  "bus_transactions es = brackets es None"

text \<open>The number of \<open>beginTransaction\<close> calls in a trace.\<close>

fun count_begins :: "event list \<Rightarrow> nat" where
  "count_begins [] = 0"
| "count_begins (BeginTransaction s # es) = Suc (count_begins es)"
| "count_begins (e # es) = count_begins es"

section \<open>The steps of the clipping code, one axis at a time\<close>

text \<open>
  The clipping code treats the two axes alike. Its steps are named here for the proofs:
  moving the origin and negating a negative extent, the far edge \<open>x2\<close>, snapping a
  negative origin to zero, and the clipped extent. \<open>accepted\<close> is the conjunction of the
  tests on the way to \<open>writeFillRectPreclipped\<close>.
\<close>

definition norm_origin :: "int16 \<Rightarrow> int16 \<Rightarrow> int16" where
  "norm_origin x w = (if sint w < 0 then i16 (sint x + (sint w + 1)) else x)"

definition norm_extent :: "int16 \<Rightarrow> int16" where
  "norm_extent w = (if sint w < 0 then i16 (- sint w) else w)"

definition far_edge :: "int16 \<Rightarrow> int16 \<Rightarrow> int16" where
  "far_edge x w = i16 (sint x + sint w - 1)"

definition clip_origin :: "int16 \<Rightarrow> int16" where
  "clip_origin x = (if sint x < 0 then 0 else x)"

definition clip_extent :: "int16 \<Rightarrow> int16 \<Rightarrow> int16 \<Rightarrow> int16" where
  "clip_extent bound x w =
     (if sint bound \<le> sint (far_edge x w) then i16 (sint bound - sint (clip_origin x))
      else if sint x < 0 then i16 (sint (far_edge x w) + 1) else w)"

definition accepted :: "spitft \<Rightarrow> int16 \<Rightarrow> int16 \<Rightarrow> int16 \<Rightarrow> int16 \<Rightarrow> bool" where
  "accepted st x y w h =
     (w \<noteq> 0 \<and> h \<noteq> 0
      \<and> sint (norm_origin x w) < sint (gfx_width st)
      \<and> sint (norm_origin y h) < sint (gfx_height st)
      \<and> 0 \<le> sint (far_edge (norm_origin x w) (norm_extent w))
      \<and> 0 \<le> sint (far_edge (norm_origin y h) (norm_extent h)))"

text \<open>
  The same request read without machine arithmetic: the least and the greatest
  coordinate that a request with origin \<open>x\<close> and extent \<open>w\<close> covers along one axis (for
  a negative extent the origin is the greatest), and the requests that lie fully outside
  the surface.
\<close>

definition near_side :: "int16 \<Rightarrow> int16 \<Rightarrow> int" where
  "near_side x w = (if sint w < 0 then sint x + sint w + 1 else sint x)"

definition far_side :: "int16 \<Rightarrow> int16 \<Rightarrow> int" where
  "far_side x w = (if sint w < 0 then sint x else sint x + sint w - 1)"

definition off_surface :: "spitft \<Rightarrow> int16 \<Rightarrow> int16 \<Rightarrow> int16 \<Rightarrow> int16 \<Rightarrow> bool" where
  "off_surface st x y w h =
     (sint (gfx_width st) \<le> near_side x w \<or> far_side x w < 0
      \<or> sint (gfx_height st) \<le> near_side y h \<or> far_side y h < 0)"

section \<open>The surface of the end-to-end scenarios\<close>

text \<open>A driver for a panel of 100 by 100 pixels.\<close>

definition surface100 :: spitft where
  "surface100 =
     \<lparr>gfx_width = 100, gfx_height = 100,
      hwspi_settings = \<lparr>clock = 16000000, bitOrder = MSBFIRST, dataMode = SPI_MODE0\<rparr>,
      tft8_wr = 5, tft8_rd = 6\<rparr>"

section \<open>Colour packing\<close>

lemma mask_F8: "(0xF8 :: 'a::len word) = push_bit 3 (mask 5)"
  by (simp add: mask_eq_exp_minus_1)

lemma mask_FC: "(0xFC :: 'a::len word) = push_bit 2 (mask 6)"
  by (simp add: mask_eq_exp_minus_1)

lemma color565_formula: "color565 red green blue = color565_spec red green blue"
  unfolding color565_def color565_spec_def mask_F8 mask_FC
  by (rule bit_word_eqI) (auto simp add: bit_simps simp del: push_bit_numeral)

text \<open>
  C9. \<open>color565(0,0,0) = 0x0000\<close>, \<open>color565(255,255,255) = 0xFFFF\<close>,
  \<open>color565(255,0,0) = 0xF800\<close>, and for all 8-bit red, green and blue the result is
  \<open>((red & 0xF8) << 8) | ((green & 0xFC) << 3) | (blue >> 3)\<close>. The function takes no
  driver state and issues no event.
\<close>

theorem color565_packs_565:
  "color565 0 0 0 = 0x0000
   \<and> color565 255 255 255 = 0xFFFF
   \<and> color565 255 0 0 = 0xF800
   \<and> color565 red green blue
       = push_bit 8 (ucast (red AND 0xF8)) OR push_bit 3 (ucast (green AND 0xFC))
         OR ucast (drop_bit 3 blue)"
proof -
  have "color565 0 0 0 = 0x0000"
    by (simp add: color565_def)
  moreover have "color565 255 255 255 = 0xFFFF"
    by (simp add: color565_def)
  moreover have "color565 255 0 0 = 0xF800"
    by (simp add: color565_def)
  moreover have "color565 red green blue
       = push_bit 8 (ucast (red AND 0xF8)) OR push_bit 3 (ucast (green AND 0xFC))
         OR ucast (drop_bit 3 blue)"
    using color565_formula [of red green blue] by (simp add: color565_spec_def)
  ultimately show ?thesis by simp
qed

section \<open>Bus primitives\<close>

lemmas bus_defs =
  SPI_BEGIN_TRANSACTION_def SPI_END_TRANSACTION_def TFT_CS_STROBE_def TFT_WR_STROBE_def

lemma mask_FF: "(0xFF :: 'a::len word) = mask 8"
  by (simp add: mask_eq_exp_minus_1)

lemma low_byte_AND: "(ucast ((w :: uint16) AND 0xFF) :: uint8) = ucast w"
  unfolding mask_FF by (rule bit_word_eqI) (auto simp add: bit_simps)

lemma hi_of_hi:
  "(ucast (drop_bit 8 (ucast (drop_bit 16 l) :: uint16)) :: uint8) = ucast (drop_bit 24 (l :: uint32))"
  by (rule bit_word_eqI) (auto simp add: bit_simps)

lemma lo_of_hi:
  "(ucast (ucast (drop_bit 16 l) :: uint16) :: uint8) = ucast (drop_bit 16 (l :: uint32))"
  by (rule bit_word_eqI) (auto simp add: bit_simps)

lemma hi_of_lo:
  "(ucast (drop_bit 8 (ucast l :: uint16)) :: uint8) = ucast (drop_bit 8 (l :: uint32))"
  by (rule bit_word_eqI) (auto simp add: bit_simps)

lemma lo_of_lo: "(ucast (ucast l :: uint16) :: uint8) = ucast (l :: uint32)"
  by (rule bit_word_eqI) (auto simp add: bit_simps)

lemma print_hi: "uint (drop_bit 8 (w :: uint16) AND 0xFF) = uint (ucast (drop_bit 8 w) :: uint8)"
  unfolding mask_FF by (rule bit_eqI) (auto simp add: bit_simps bit_uint_iff)

lemma print_lo: "uint ((w :: uint16) AND 0xFF) = uint (ucast w :: uint8)"
  unfolding mask_FF by (rule bit_eqI) (auto simp add: bit_simps bit_uint_iff)

lemma bus_bytes_append: "bus_bytes (xs @ ys) = bus_bytes xs @ bus_bytes ys"
  by (induction xs rule: bus_bytes.induct) simp_all

lemma bus_bytes_concat_replicate:
  "bus_bytes (concat (replicate n xs)) = concat (replicate n (bus_bytes xs))"
  by (induction n) (simp_all add: bus_bytes_append)

lemma bus_bytes_SPI_WRITE16:
  "bus_bytes (SPI_WRITE16 st w) = [ucast (drop_bit 8 w), ucast w]"
  by (simp add: SPI_WRITE16_def bus_defs low_byte_AND)

text \<open>
  C7. For every 8-bit value \<open>b\<close>, \<open>spiWrite(b)\<close> transmits \<open>b\<close> over the bus exactly twice,
  inside a single begin/end transaction bracket.
\<close>

theorem spiWrite_sends_twice:
  "bus_bytes (spiWrite st b) = [b, b]
   \<and> bus_transactions (spiWrite st b) = Some [[b, b]]
   \<and> count_begins (spiWrite st b) = 1"
  by (simp add: spiWrite_def bus_defs bus_transactions_def)

lemma SPI_WRITE32_split:
  "SPI_WRITE32 st l = SPI_WRITE16 st (ucast (drop_bit 16 l)) @ SPI_WRITE16 st (ucast l)"
  by (simp add: SPI_WRITE32_def SPI_WRITE16_def print_hi print_lo low_byte_AND
      hi_of_hi lo_of_hi hi_of_lo lo_of_lo)

lemma bus_transactions_SPI_WRITE32:
  "bus_transactions (SPI_WRITE32 st l)
     = Some [[ucast (drop_bit 24 l), ucast (drop_bit 16 l)], [ucast (drop_bit 8 l), ucast l]]"
  by (simp add: SPI_WRITE32_def bus_defs bus_transactions_def)

text \<open>
  C6. For every 32-bit value \<open>l\<close>, \<open>SPI_WRITE32(l)\<close> issues exactly two transaction
  brackets, the high 16-bit word first and the low word second, each word high byte
  before low byte: its trace is that of \<open>SPI_WRITE16\<close> of the high word followed by
  \<open>SPI_WRITE16\<close> of the low word, never one bracket of four bytes. \<open>0xAABBCCDD\<close> appears as
  the bracket of \<open>0xAABB\<close> followed by the bracket of \<open>0xCCDD\<close>.
\<close>

theorem SPI_WRITE32_two_word_transactions:
  "SPI_WRITE32 st l = SPI_WRITE16 st (ucast (drop_bit 16 l)) @ SPI_WRITE16 st (ucast l)
   \<and> bus_transactions (SPI_WRITE32 st l)
       = Some [[ucast (drop_bit 24 l), ucast (drop_bit 16 l)], [ucast (drop_bit 8 l), ucast l]]
   \<and> count_begins (SPI_WRITE32 st l) = 2
   \<and> bus_transactions (SPI_WRITE32 st 0xAABBCCDD) = Some [[0xAA, 0xBB], [0xCC, 0xDD]]
   \<and> bus_transactions (SPI_WRITE16 st 0xAABB) = Some [[0xAA, 0xBB]]
   \<and> bus_transactions (SPI_WRITE16 st 0xCCDD) = Some [[0xCC, 0xDD]]"
proof -
  have "count_begins (SPI_WRITE32 st l) = 2"
    by (simp add: SPI_WRITE32_def bus_defs)
  moreover have "bus_transactions (SPI_WRITE32 st 0xAABBCCDD) = Some [[0xAA, 0xBB], [0xCC, 0xDD]]"
    by (simp add: bus_transactions_SPI_WRITE32)
  moreover have "bus_transactions (SPI_WRITE16 st 0xAABB) = Some [[0xAA, 0xBB]]"
    by (simp add: SPI_WRITE16_def bus_defs bus_transactions_def)
  moreover have "bus_transactions (SPI_WRITE16 st 0xCCDD) = Some [[0xCC, 0xDD]]"
    by (simp add: SPI_WRITE16_def bus_defs bus_transactions_def)
  ultimately show ?thesis
    using SPI_WRITE32_split [of st l] bus_transactions_SPI_WRITE32 [of st l] by simp
qed

section \<open>Transfer settings after a speed change\<close>

text \<open>
  C4. The claim is that after \<open>setSPISpeed(freq)\<close> transactions are clocked at \<open>freq\<close>.
  The function stores \<open>DEFAULT_SPI_FREQ\<close> whatever \<open>freq\<close> is: with a default of 16 MHz,
  \<open>setSPISpeed(1000000)\<close> leaves the next transaction at 16 MHz. Bit order and mode are
  \<open>MSBFIRST\<close> and \<open>SPI_MODE0\<close>.
\<close>

theorem setSPISpeed_ignores_freq:
  "SPI_BEGIN_TRANSACTION (setSPISpeed 16000000 st 1000000)
     = [BeginTransaction \<lparr>clock = 16000000, bitOrder = MSBFIRST, dataMode = SPI_MODE0\<rparr>]
   \<and> hwspi_settings (setSPISpeed DEFAULT_SPI_FREQ st freq)
       = \<lparr>clock = DEFAULT_SPI_FREQ, bitOrder = MSBFIRST, dataMode = SPI_MODE0\<rparr>"
  by (simp add: setSPISpeed_def SPI_BEGIN_TRANSACTION_def)

section \<open>Command dispatch with a byte payload\<close>

lemma sendCommand_loop_replicate:
  "sendCommand_loop st c i n
     = concat (replicate (nat (uint n - i))
         (SPI_BEGIN_TRANSACTION st @ SPI_WRITE16 st (ucast c) @ SPI_END_TRANSACTION st))"
proof (induction st c i n rule: sendCommand_loop.induct)
  case (1 st c i n)
  show ?case
  proof (cases "i < uint n")
    case True
    then have "nat (uint n - i) = Suc (nat (uint n - (i + 1)))" by simp
    with True "1.IH" show ?thesis
      by (subst sendCommand_loop.simps) simp
  next
    case False
    then show ?thesis by (subst sendCommand_loop.simps) simp
  qed
qed

lemma high_byte_of_byte: "(ucast (drop_bit 8 (ucast (c :: uint8) :: uint16)) :: uint8) = 0"
  by (rule bit_word_eqI) (auto simp add: bit_simps dest: bit_imp_le_length)

lemma low_byte_of_byte: "(ucast (ucast (c :: uint8) :: uint16) :: uint8) = c"
  by (rule bit_word_eqI) (auto simp add: bit_simps)

lemma count_begins_append: "count_begins (xs @ ys) = count_begins xs + count_begins ys"
  by (induction xs rule: count_begins.induct) simp_all

lemma count_begins_concat_replicate:
  "count_begins (concat (replicate n xs)) = n * count_begins xs"
  by (induction n) (simp_all add: count_begins_append)

lemma print_byte: "uint (0x00FF AND (ucast (b :: uint8) :: uint16)) = uint b"
  unfolding mask_FF by (rule bit_eqI) (auto simp add: bit_simps bit_uint_iff dest: bit_imp_le_length)

lemma print_hi_of_byte: "uint (drop_bit 8 (ucast (c :: uint8) :: uint16) AND 0x00FF) = 0"
  unfolding mask_FF by (rule bit_eqI) (auto simp add: bit_simps bit_uint_iff dest: bit_imp_le_length)

lemma print_lo_of_byte: "uint ((ucast (c :: uint8) :: uint16) AND 0x00FF) = uint c"
  unfolding mask_FF by (rule bit_eqI) (auto simp add: bit_simps bit_uint_iff dest: bit_imp_le_length)

lemma spiWrite_events:
  "spiWrite st b =
     [BeginTransaction (hwspi_settings st), Transfer b, Transfer b, SerialPrintln (uint b),
      EndTransaction, CsHigh, CsLow,
      DigitalWrite (tft8_wr st) LOW, DigitalWrite (tft8_wr st) HIGH]"
  by (simp add: spiWrite_def bus_defs print_byte)

lemma sendCommand_iteration_events:
  "SPI_BEGIN_TRANSACTION st @ SPI_WRITE16 st (ucast (c :: uint8)) @ SPI_END_TRANSACTION st =
     [BeginTransaction (hwspi_settings st),
      BeginTransaction (hwspi_settings st),
      SerialPrintln 0, SerialPrintln (uint c), Transfer 0, Transfer c,
      EndTransaction, CsHigh, CsLow,
      DigitalWrite (tft8_wr st) LOW, DigitalWrite (tft8_wr st) HIGH,
      EndTransaction, CsHigh, CsLow,
      DigitalWrite (tft8_wr st) LOW, DigitalWrite (tft8_wr st) HIGH]"
  by (simp add: SPI_WRITE16_def bus_defs print_hi_of_byte print_lo_of_byte
      high_byte_of_byte low_byte_AND low_byte_of_byte)

text \<open>
  C5. The non-const 8-bit overload \<open>sendCommand(commandByte, dataBytes, N)\<close> asserts command
  mode, writes \<open>commandByte\<close> (twice on the bus, in one transaction), switches to data
  mode, and then runs \<open>N\<close> iterations. Each iteration calls \<open>beginTransaction\<close>, then
  \<open>SPI_WRITE16(commandByte)\<close>, which calls \<open>beginTransaction\<close> again, transfers the
  bytes \<open>0\<close> and \<open>commandByte\<close> and ends its transaction, and then ends the transaction
  once more. So \<open>beginTransaction\<close> is called \<open>1 + 2 * N\<close> times, and from the first
  iteration on the brackets are nested. The trace is the same for every payload pointer
  and every memory content: the payload is never read and never transmitted.
\<close>

theorem sendCommand_resends_command:
  "sendCommand st mem commandByte dataBytes n
     = [DcLow, BeginTransaction (hwspi_settings st), Transfer commandByte, Transfer commandByte,
        SerialPrintln (uint commandByte), EndTransaction, CsHigh, CsLow,
        DigitalWrite (tft8_wr st) LOW, DigitalWrite (tft8_wr st) HIGH, DcHigh]
       @ concat (replicate (unat n)
           [BeginTransaction (hwspi_settings st),
            BeginTransaction (hwspi_settings st),
            SerialPrintln 0, SerialPrintln (uint commandByte),
            Transfer 0, Transfer commandByte,
            EndTransaction, CsHigh, CsLow,
            DigitalWrite (tft8_wr st) LOW, DigitalWrite (tft8_wr st) HIGH,
            EndTransaction, CsHigh, CsLow,
            DigitalWrite (tft8_wr st) LOW, DigitalWrite (tft8_wr st) HIGH])
   \<and> sendCommand st mem commandByte dataBytes n
     = [DcLow] @ spiWrite st commandByte @ [DcHigh]
       @ concat (replicate (unat n)
           (SPI_BEGIN_TRANSACTION st @ SPI_WRITE16 st (ucast commandByte) @ SPI_END_TRANSACTION st))
   \<and> count_begins (sendCommand st mem commandByte dataBytes n) = 1 + 2 * unat n
   \<and> bus_bytes (sendCommand st mem commandByte dataBytes n)
       = [commandByte, commandByte] @ concat (replicate (unat n) [0, commandByte])
   \<and> bus_transactions (sendCommand st mem commandByte dataBytes 0) = Some [[commandByte, commandByte]]
   \<and> bus_transactions (sendCommand st mem commandByte dataBytes 1) = None
   \<and> sendCommand st mem' commandByte dataBytes' n = sendCommand st mem commandByte dataBytes n"
proof -
  have eq: "sendCommand st mem commandByte dataBytes n
     = [DcLow] @ spiWrite st commandByte @ [DcHigh]
       @ concat (replicate (unat n)
           (SPI_BEGIN_TRANSACTION st @ SPI_WRITE16 st (ucast commandByte) @ SPI_END_TRANSACTION st))"
    by (simp add: sendCommand_def sendCommand_loop_replicate nat_uint_eq)
  have ev: "sendCommand st mem commandByte dataBytes n
     = [DcLow, BeginTransaction (hwspi_settings st), Transfer commandByte, Transfer commandByte,
        SerialPrintln (uint commandByte), EndTransaction, CsHigh, CsLow,
        DigitalWrite (tft8_wr st) LOW, DigitalWrite (tft8_wr st) HIGH, DcHigh]
       @ concat (replicate (unat n)
           [BeginTransaction (hwspi_settings st),
            BeginTransaction (hwspi_settings st),
            SerialPrintln 0, SerialPrintln (uint commandByte),
            Transfer 0, Transfer commandByte,
            EndTransaction, CsHigh, CsLow,
            DigitalWrite (tft8_wr st) LOW, DigitalWrite (tft8_wr st) HIGH,
            EndTransaction, CsHigh, CsLow,
            DigitalWrite (tft8_wr st) LOW, DigitalWrite (tft8_wr st) HIGH])"
    unfolding eq sendCommand_iteration_events spiWrite_events by simp
  have cb: "count_begins (sendCommand st mem commandByte dataBytes n) = 1 + 2 * unat n"
    unfolding ev by (simp add: count_begins_append count_begins_concat_replicate)
  have bb: "bus_bytes (sendCommand st mem commandByte dataBytes n)
       = [commandByte, commandByte] @ concat (replicate (unat n) [0, commandByte])"
    unfolding ev by (simp add: bus_bytes_append bus_bytes_concat_replicate)
  have t0: "bus_transactions (sendCommand st mem commandByte dataBytes 0)
       = Some [[commandByte, commandByte]]"
    by (simp add: sendCommand_def sendCommand_loop_replicate spiWrite_events bus_transactions_def)
  have t1: "bus_transactions (sendCommand st mem commandByte dataBytes 1) = None"
    by (simp add: sendCommand_def sendCommand_loop_replicate spiWrite_events
        sendCommand_iteration_events bus_transactions_def)
  have ind: "sendCommand st mem' commandByte dataBytes' n
       = sendCommand st mem commandByte dataBytes n"
    by (simp add: sendCommand_def)
  from ev eq cb bb t0 t1 ind show ?thesis by blast
qed

section \<open>Draw variants and write variants\<close>

text \<open>
  C10. \<open>drawPixel(x, y, color)\<close> issues exactly the events of \<open>writePixel(x, y, color)\<close>, and
  \<open>fillRect(x, y, w, h, color)\<close> exactly those of \<open>writeFillRect(x, y, w, h, color)\<close>, for
  every input: the draw variants add no transaction bracket and nothing else.
\<close>

theorem draw_variants_equal_write_variants:
  "drawPixel st x y color = writePixel st x y color
   \<and> fillRect st x y w h color = writeFillRect st x y w h color"
  by (simp add: drawPixel_def writePixel_def fillRect_def writeFillRect_def)

section \<open>Byte swapping\<close>

lemma bswap16_involution: "bswap16 (bswap16 v) = v"
  unfolding bswap16_def by (rule bit_word_eqI) (auto simp add: bit_simps)

lemma swapBytes_loop_frame:
  "\<not> (dest + int i \<le> a \<and> a < dest + int len) \<Longrightarrow> swapBytes_loop mem src dest i len a = mem a"
proof (induction mem src dest i len rule: swapBytes_loop.induct)
  case (1 mem src dest i len)
  show ?case
  proof (cases "i < len")
    case True
    let ?mem' = "mem(dest + int i := bswap16 (mem (src + int i)))"
    from "1.prems" have out: "\<not> (dest + int (Suc i) \<le> a \<and> a < dest + int len)" by auto
    have "swapBytes_loop mem src dest i len a = swapBytes_loop ?mem' src dest (Suc i) len a"
      using True by (subst swapBytes_loop.simps) simp
    also have "\<dots> = ?mem' a"
      using "1.IH" [OF True out] .
    also have "\<dots> = mem a"
      using True "1.prems" by auto
    finally show ?thesis .
  next
    case False
    then show ?thesis by (subst swapBytes_loop.simps) simp
  qed
qed

lemma swapBytes_loop_result:
  "dest = src \<or> src + int len \<le> dest \<or> dest + int len \<le> src \<Longrightarrow>
   swapBytes_loop mem src dest i len
     = (\<lambda>a. if dest + int i \<le> a \<and> a < dest + int len
             then bswap16 (mem (a - dest + src)) else mem a)"
proof (induction mem src dest i len rule: swapBytes_loop.induct)
  case (1 mem src dest i len)
  show ?case
  proof (cases "i < len")
    case True
    have "swapBytes_loop mem src dest i len
          = swapBytes_loop (mem(dest + int i := bswap16 (mem (src + int i)))) src dest (Suc i) len"
      using True by (subst swapBytes_loop.simps) simp
    also have "\<dots> = (\<lambda>a. if dest + int (Suc i) \<le> a \<and> a < dest + int len
             then bswap16 ((mem(dest + int i := bswap16 (mem (src + int i)))) (a - dest + src))
             else (mem(dest + int i := bswap16 (mem (src + int i)))) a)"
      using "1.IH" [OF True "1.prems"] .
    also have "\<dots> = (\<lambda>a. if dest + int i \<le> a \<and> a < dest + int len
             then bswap16 (mem (a - dest + src)) else mem a)"
      using True "1.prems" by (auto simp add: fun_eq_iff algebra_simps)
    finally show ?thesis .
  next
    case False
    then show ?thesis by (subst swapBytes_loop.simps) (auto simp add: fun_eq_iff)
  qed
qed

lemma swapBytes_in_place:
  "swapBytes mem src len None = (\<lambda>a. if src \<le> a \<and> a < src + int (unat len) then bswap16 (mem a) else mem a)"
  by (auto simp add: swapBytes_def swapBytes_loop_result fun_eq_iff)

lemma swapBytes_Some:
  "d = src \<or> src + int (unat len) \<le> d \<or> d + int (unat len) \<le> src \<Longrightarrow>
   swapBytes mem src len (Some d)
     = (\<lambda>a. if d \<le> a \<and> a < d + int (unat len) then bswap16 (mem (a - d + src)) else mem a)"
  by (simp add: swapBytes_def swapBytes_loop_result)

text \<open>
  C8. Applying \<open>swapBytes\<close> twice gives back the original buffer: in place (destination
  NULL, or the source address itself) the whole memory is as before; through a separate
  destination and back, every address holds what it held, except the destination, which
  holds the swapped copy; swapping the destination copy in place leaves the original
  pixels there. One call changes nothing outside the first \<open>len\<close> elements of its
  output buffer.
\<close>

theorem swapBytes_twice:
  "swapBytes (swapBytes mem src len None) src len None = mem
   \<and> swapBytes (swapBytes mem src len (Some src)) src len (Some src) = mem
   \<and> (src + int (unat len) \<le> dest \<or> dest + int (unat len) \<le> src \<longrightarrow>
        swapBytes (swapBytes mem src len (Some dest)) dest len (Some src) a
          = (if dest \<le> a \<and> a < dest + int (unat len)
             then bswap16 (mem (a - dest + src)) else mem a)
        \<and> (src \<le> b \<and> b < src + int (unat len) \<longrightarrow>
              swapBytes (swapBytes mem src len (Some dest)) dest len None (b - src + dest) = mem b))
   \<and> (\<not> (src \<le> p \<and> p < src + int (unat len)) \<longrightarrow> swapBytes mem src len None p = mem p)
   \<and> (\<not> (d \<le> q \<and> q < d + int (unat len)) \<longrightarrow> swapBytes mem src len (Some d) q = mem q)"
proof -
  have in_place: "swapBytes (swapBytes mem src len None) src len None = mem"
    by (auto simp add: swapBytes_in_place fun_eq_iff bswap16_involution)
  have in_place': "swapBytes (swapBytes mem src len (Some src)) src len (Some src) = mem"
    by (auto simp add: swapBytes_Some fun_eq_iff bswap16_involution)
  have round_trip: "swapBytes (swapBytes mem src len (Some dest)) dest len (Some src) a
              = (if dest \<le> a \<and> a < dest + int (unat len)
                 then bswap16 (mem (a - dest + src)) else mem a)"
    if "src + int (unat len) \<le> dest \<or> dest + int (unat len) \<le> src"
    using that by (auto simp add: swapBytes_Some bswap16_involution)
  have through_dest: "swapBytes (swapBytes mem src len (Some dest)) dest len None (b - src + dest) = mem b"
    if "src + int (unat len) \<le> dest \<or> dest + int (unat len) \<le> src"
       "src \<le> b \<and> b < src + int (unat len)"
    using that by (auto simp add: swapBytes_Some swapBytes_in_place bswap16_involution)
  have frame: "swapBytes mem src len None p = mem p"
    if "\<not> (src \<le> p \<and> p < src + int (unat len))"
    using that by (simp add: swapBytes_def swapBytes_loop_frame)
  have frame': "swapBytes mem src len (Some d) q = mem q"
    if "\<not> (d \<le> q \<and> q < d + int (unat len))"
    using that by (simp add: swapBytes_def swapBytes_loop_frame)
  from in_place in_place' round_trip through_dest frame frame' show ?thesis by blast
qed

theorem swapBytes_twice_witness:
  "(0::int) + int (unat (2 :: uint32)) \<le> 10
   \<and> swapBytes (swapBytes (\<lambda>a. if a = 0 then 0x1234 else 0x00FF) 0 2 None) 0 2 None
       = (\<lambda>a. if a = 0 then 0x1234 else 0x00FF)
   \<and> swapBytes (swapBytes (\<lambda>a. if a = 0 then 0x1234 else 0x00FF) 0 2 (Some 10)) 10 2 (Some 0) 10 = 0x3412
   \<and> swapBytes (swapBytes (\<lambda>a. if a = 0 then 0x1234 else 0x00FF) 0 2 (Some 10)) 10 2 None 10 = 0x1234
   \<and> swapBytes (\<lambda>a. if a = 0 then 0x1234 else 0x00FF) 0 2 None 2 = 0x00FF
   \<and> swapBytes (\<lambda>a. if a = 0 then 0x1234 else 0x00FF) 0 2 (Some 10) 12 = 0x00FF"
  using swapBytes_twice [where mem = "\<lambda>a. if a = 0 then 0x1234 else 0x00FF" and src = 0
      and len = 2 and dest = 10 and d = 10 and a = 10 and b = 0 and p = 2 and q = 12]
  by (simp add: bswap16_def)

section \<open>Clipping and rectangle fills\<close>

lemma sint16_ge: "- 32768 \<le> sint (x :: int16)"
  using sint_ge [of x] by simp

lemma sint16_le: "sint (x :: int16) \<le> 32767"
  using sint_lt [of x] by simp

lemma sint_i16: "sint (i16 k) = (k + 32768) mod 65536 - 32768"
  by (simp add: i16_def int_word_sint)

lemma sint_i16_id: "- 32768 \<le> k \<Longrightarrow> k \<le> 32767 \<Longrightarrow> sint (i16 k) = k"
proof -
  assume "- 32768 \<le> k" "k \<le> 32767"
  then have "(k + 32768) mod 65536 = k + 32768"
    by (intro mod_pos_pos_trivial) simp_all
  then show ?thesis by (simp add: sint_i16)
qed

lemma sint_i16_wrap_hi: "32768 \<le> k \<Longrightarrow> k \<le> 98303 \<Longrightarrow> sint (i16 k) = k - 65536"
proof -
  assume "32768 \<le> k" "k \<le> 98303"
  then have "(k - 32768) mod 65536 = k - 32768"
    by (intro mod_pos_pos_trivial) simp_all
  moreover have e: "k + 32768 = (k - 32768) + 65536"
    by simp
  have "(k + 32768) mod 65536 = (k - 32768) mod 65536"
    by (subst e) (rule mod_add_self2)
  ultimately have "(k + 32768) mod 65536 = k - 32768"
    by simp
  then show ?thesis by (simp add: sint_i16)
qed

lemma sint_i16_wrap_lo: "- 98304 \<le> k \<Longrightarrow> k < - 32768 \<Longrightarrow> sint (i16 k) = k + 65536"
proof -
  assume "- 98304 \<le> k" "k < - 32768"
  then have "(k + 98304) mod 65536 = k + 98304"
    by (intro mod_pos_pos_trivial) simp_all
  moreover have e: "k + 98304 = (k + 32768) + 65536"
    by simp
  have "(k + 98304) mod 65536 = (k + 32768) mod 65536"
    by (subst e) (rule mod_add_self2)
  ultimately have "(k + 32768) mod 65536 = k + 98304"
    by simp
  then show ?thesis by (simp add: sint_i16)
qed

lemma i16_sint: "i16 (sint x) = x"
  by (simp add: i16_def)

lemma fillRect_eq:
  "fillRect st x y w h color =
     (if accepted st x y w h
      then writeFillRectPreclipped st
             (clip_origin (norm_origin x w)) (clip_origin (norm_origin y h))
             (clip_extent (gfx_width st) (norm_origin x w) (norm_extent w))
             (clip_extent (gfx_height st) (norm_origin y h) (norm_extent h)) color
      else [])"
  by (simp add: fillRect_def accepted_def norm_origin_def norm_extent_def far_edge_def
      clip_origin_def clip_extent_def Let_def)



lemma sint16_eq_0: "sint (w :: int16) = 0 \<longleftrightarrow> w = 0"
proof
  assume "sint w = 0"
  then have "i16 (sint w) = i16 0" by simp
  then show "w = 0" by (simp add: i16_sint) (simp add: i16_def)
qed simp

lemma norm_extent_range:
  assumes "w \<noteq> 0"
  shows "0 < sint (norm_extent w) \<or> sint (norm_extent w) = - 32768"
proof (cases "sint w < 0")
  case True
  show ?thesis
  proof (cases "sint w = - 32768")
    case True
    then show ?thesis
      by (simp add: norm_extent_def sint_i16_wrap_hi)
  next
    case False
    with \<open>sint w < 0\<close> sint16_ge [of w] have "sint (i16 (- sint w)) = - sint w"
      by (intro sint_i16_id) simp_all
    with \<open>sint w < 0\<close> show ?thesis
      by (simp add: norm_extent_def)
  qed
next
  case False
  moreover from assms have "sint w \<noteq> 0" by (simp add: sint16_eq_0)
  ultimately show ?thesis by (simp add: norm_extent_def)
qed

lemma clip_bounds:
  assumes bound: "0 < sint bound"
    and near: "sint x < sint bound"
    and far: "0 \<le> sint (far_edge x w)"
    and ext: "0 < sint w \<or> sint w = - 32768"
  shows "0 \<le> sint (clip_origin x) \<and> 0 < sint (clip_extent bound x w)
         \<and> sint (clip_origin x) + sint (clip_extent bound x w) \<le> sint bound"
proof -
  have o: "sint (clip_origin x) = max 0 (sint x)"
    by (simp add: clip_origin_def)
  show ?thesis
  proof (cases "sint bound \<le> sint (far_edge x w)")
    case True
    have "sint (i16 (sint bound - sint (clip_origin x))) = sint bound - sint (clip_origin x)"
      using bound near sint16_le [of bound] o by (intro sint_i16_id) simp_all
    with True bound near o show ?thesis
      by (simp add: clip_extent_def)
  next
    case False
    show ?thesis
    proof (cases "sint x < 0")
      case True
      have "sint (i16 (sint (far_edge x w) + 1)) = sint (far_edge x w) + 1"
        using far False sint16_le [of bound] by (intro sint_i16_id) simp_all
      with True False far o show ?thesis
        by (simp add: clip_extent_def)
    next
      case nonneg: False
      let ?k = "sint x + sint w - 1"
      have fe: "sint (far_edge x w) = sint (i16 ?k)"
        by (simp add: far_edge_def)
      have "0 < sint w \<and> sint x + sint w \<le> sint bound"
      proof (cases "0 < sint w")
        case True
        show ?thesis
        proof (cases "?k \<le> 32767")
          case True
          with nonneg \<open>0 < sint w\<close> have "sint (i16 ?k) = ?k"
            by (intro sint_i16_id) simp_all
          with fe False \<open>0 < sint w\<close> show ?thesis by simp
        next
          case False
          with sint16_le [of x] sint16_le [of w] have "sint (i16 ?k) = ?k - 65536"
            by (intro sint_i16_wrap_hi) simp_all
          with fe far sint16_le [of x] sint16_le [of w] show ?thesis by simp
        qed
      next
        case False
        with ext have w: "sint w = - 32768" by simp
        show ?thesis
        proof (cases "sint x = 0")
          case True
          with w have "sint (i16 ?k) = ?k + 65536"
            by (intro sint_i16_wrap_lo) simp_all
          with fe w True \<open>\<not> sint bound \<le> sint (far_edge x w)\<close> sint16_le [of bound]
          show ?thesis by simp
        next
          case False
          with nonneg w sint16_le [of x] have "sint (i16 ?k) = ?k"
            by (intro sint_i16_id) simp_all
          with fe far w sint16_le [of x] show ?thesis by simp
        qed
      qed
      with nonneg False o show ?thesis
        by (simp add: clip_extent_def)
    qed
  qed
qed

lemma writeColor_loop_replicate:
  "writeColor_loop st color len = concat (replicate (unat len) (SPI_WRITE16 st color))"
proof (induction st color len rule: writeColor_loop.induct)
  case (1 st color len)
  show ?case
  proof (cases "len = 0")
    case True
    then show ?thesis by (subst writeColor_loop.simps) simp
  next
    case False
    then have "unat len = Suc (unat (len - 1))"
      using measure_unat [of len] by (simp add: unat_minus_one)
    with False "1.IH" show ?thesis
      by (subst writeColor_loop.simps) simp
  qed
qed

lemma writeColor_replicate:
  "writeColor st color len = concat (replicate (unat len) (SPI_WRITE16 st color))"
  by (simp add: writeColor_def writeColor_loop_replicate)

lemma pixel_count:
  assumes "0 < sint (w :: int16)" "0 < sint (h :: int16)"
  shows "unat ((scast w :: uint32) * scast h) = nat (sint w * sint h)"
proof -
  let ?k = "sint w * sint h"
  have "?k \<le> 32767 * 32767"
    using assms sint16_le [of w] sint16_le [of h] by (intro mult_mono) simp_all
  then have "?k < 2 ^ 32" by simp
  moreover have "0 \<le> ?k"
    using assms by simp
  ultimately have "take_bit 32 ?k = ?k"
    by (simp only: take_bit_int_eq_self)
  then have "uint (word_of_int ?k :: uint32) = ?k"
    by (simp only: uint_word_of_int_eq) simp
  then have "unat (word_of_int ?k :: uint32) = nat ?k"
    by (simp only: unat_eq_nat_uint)
  moreover have "(scast w :: uint32) * scast h = word_of_int ?k"
    by (simp only: scast_eq wi_hom_mult)
  ultimately show ?thesis
    by (simp only:)
qed

lemma writeFillRectPreclipped_trace:
  assumes "0 < sint w" "0 < sint h"
  shows "writeFillRectPreclipped st x y w h color
         = SetAddrWindow x y w h # concat (replicate (nat (sint w * sint h)) (SPI_WRITE16 st color))"
  using pixel_count [OF assms]
  by (simp add: writeFillRectPreclipped_def setAddrWindow_def writeColor_replicate)

lemma fillRect_scenario:
  assumes "gfx_width st = 100" "gfx_height st = 100"
  shows "fillRect st (- 10) 50 30 10 color = writeFillRectPreclipped st 0 50 20 10 color"
  using assms by (simp add: fillRect_def Let_def i16_def)

lemma fillRect_accepted_bounds:
  assumes "0 < sint (gfx_width st)" "0 < sint (gfx_height st)" "accepted st x y w h"
  shows "0 \<le> sint (clip_origin (norm_origin x w))
       \<and> 0 < sint (clip_extent (gfx_width st) (norm_origin x w) (norm_extent w))
       \<and> sint (clip_origin (norm_origin x w))
           + sint (clip_extent (gfx_width st) (norm_origin x w) (norm_extent w)) \<le> sint (gfx_width st)"
    and "0 \<le> sint (clip_origin (norm_origin y h))
       \<and> 0 < sint (clip_extent (gfx_height st) (norm_origin y h) (norm_extent h))
       \<and> sint (clip_origin (norm_origin y h))
           + sint (clip_extent (gfx_height st) (norm_origin y h) (norm_extent h)) \<le> sint (gfx_height st)"
proof -
  from assms(3) have "w \<noteq> 0" "h \<noteq> 0"
    and nx: "sint (norm_origin x w) < sint (gfx_width st)"
    and ny: "sint (norm_origin y h) < sint (gfx_height st)"
    and fx: "0 \<le> sint (far_edge (norm_origin x w) (norm_extent w))"
    and fy: "0 \<le> sint (far_edge (norm_origin y h) (norm_extent h))"
    by (simp_all add: accepted_def)
  show "0 \<le> sint (clip_origin (norm_origin x w))
       \<and> 0 < sint (clip_extent (gfx_width st) (norm_origin x w) (norm_extent w))
       \<and> sint (clip_origin (norm_origin x w))
           + sint (clip_extent (gfx_width st) (norm_origin x w) (norm_extent w)) \<le> sint (gfx_width st)"
    using assms(1) nx fx norm_extent_range [OF \<open>w \<noteq> 0\<close>] by (rule clip_bounds)
  show "0 \<le> sint (clip_origin (norm_origin y h))
       \<and> 0 < sint (clip_extent (gfx_height st) (norm_origin y h) (norm_extent h))
       \<and> sint (clip_origin (norm_origin y h))
           + sint (clip_extent (gfx_height st) (norm_origin y h) (norm_extent h)) \<le> sint (gfx_height st)"
    using assms(2) ny fy norm_extent_range [OF \<open>h \<noteq> 0\<close>] by (rule clip_bounds)
qed

section \<open>Negative extents\<close>

lemma i16_add3: "i16 (sint x + (sint w + 1)) = x + w + 1"
  by (simp add: i16_def)

lemma i16_neg: "i16 (- sint w) = - w"
  by (simp add: i16_def)

lemma far_edge_word: "far_edge x w = x + w - 1"
  by (simp add: far_edge_def i16_def)

lemma norm_far_edge:
  "sint w < 0 \<Longrightarrow> far_edge (norm_origin x w) (norm_extent w) = x"
  by (simp add: far_edge_word norm_origin_def norm_extent_def i16_add3 i16_neg)

lemma sint_neg16:
  assumes "sint (w :: int16) \<noteq> - 32768"
  shows "sint (- w) = - sint w"
proof -
  have "sint (i16 (- sint w)) = - sint w"
    using assms sint16_ge [of w] sint16_le [of w] by (intro sint_i16_id) simp_all
  then show ?thesis by (simp add: i16_neg)
qed

lemma norm_of_negated:
  assumes "sint w < 0" "sint w \<noteq> - 32768"
  shows "norm_origin (x + w + 1) (- w) = norm_origin x w"
    and "norm_extent (- w) = norm_extent w"
    and "- w \<noteq> 0"
proof -
  from assms have pos: "0 < sint (- w)"
    by (simp add: sint_neg16)
  with assms show "norm_origin (x + w + 1) (- w) = norm_origin x w"
    by (simp add: norm_origin_def i16_add3)
  from pos assms show "norm_extent (- w) = norm_extent w"
    by (simp add: norm_extent_def i16_neg)
  from pos show "- w \<noteq> 0"
    by auto
qed

text \<open>
  C3. For a negative width \<open>w\<close> other than \<open>-32768\<close>, \<open>fillRect(x, y, w, h, color)\<close> issues
  exactly the events of \<open>fillRect(x + w + 1, y, -w, h, color)\<close>, and for a negative
  height \<open>h\<close> other than \<open>-32768\<close> exactly those of
  \<open>fillRect(x, y + h + 1, w, -h, color)\<close>. The arguments of the second call are
  \<open>int16_t\<close> values, so the sums and negations are narrowed modulo \<open>2^16\<close>.
\<close>

theorem fillRect_negative_extent:
  "(sint w < 0 \<and> sint w \<noteq> - 32768 \<longrightarrow>
      fillRect st x y w h color = fillRect st (x + w + 1) y (- w) h color)
   \<and> (sint h < 0 \<and> sint h \<noteq> - 32768 \<longrightarrow>
      fillRect st x y w h color = fillRect st x (y + h + 1) w (- h) color)"
proof (intro conjI impI)
  assume a: "sint w < 0 \<and> sint w \<noteq> - 32768"
  then have "w \<noteq> 0" by auto
  with a show "fillRect st x y w h color = fillRect st (x + w + 1) y (- w) h color"
    by (simp add: fillRect_eq accepted_def norm_of_negated)
next
  assume a: "sint h < 0 \<and> sint h \<noteq> - 32768"
  then have "h \<noteq> 0" by auto
  with a show "fillRect st x y w h color = fillRect st x (y + h + 1) w (- h) color"
    by (simp add: fillRect_eq accepted_def norm_of_negated)
qed

theorem fillRect_negative_extent_witness:
  "sint (- 30 :: int16) < 0 \<and> sint (- 30 :: int16) \<noteq> - 32768
   \<and> fillRect surface100 19 50 (- 30) 10 0x07E0
       = fillRect surface100 (19 + (- 30) + 1) 50 (- (- 30)) 10 0x07E0
   \<and> sint (- 10 :: int16) < 0 \<and> sint (- 10 :: int16) \<noteq> - 32768
   \<and> fillRect surface100 (- 10) 59 30 (- 10) 0x07E0
       = fillRect surface100 (- 10) (59 + (- 10) + 1) 30 (- (- 10)) 0x07E0"
proof -
  have w: "sint (- 30 :: int16) < 0 \<and> sint (- 30 :: int16) \<noteq> - 32768"
    by simp
  have h: "sint (- 10 :: int16) < 0 \<and> sint (- 10 :: int16) \<noteq> - 32768"
    by simp
  from w h
    fillRect_negative_extent [where w = "- 30" and st = surface100 and x = 19 and y = 50
      and h = 10 and color = "0x07E0"]
    fillRect_negative_extent [where w = 30 and st = surface100 and x = "- 10" and y = 59
      and h = "- 10" and color = "0x07E0"]
  show ?thesis by blast
qed

text \<open>
  At \<open>w = -32768\<close> the negated width is not an \<open>int16_t\<close>: narrowed, \<open>-w\<close> is \<open>-32768\<close>
  again. On the 100 by 100 surface \<open>fillRect(0, 0, -32768, 1, c)\<close> fills the pixel
  \<open>(0, 0)\<close>, while \<open>fillRect(0 + w + 1, 0, -w, 1, c)\<close> is rejected.
\<close>

lemma fillRect_min_width_left:
  "fillRect surface100 0 0 (- 32768) 1 color = writeFillRectPreclipped surface100 0 0 1 1 color"
  by (simp add: fillRect_def Let_def i16_def surface100_def)

lemma fillRect_min_width_right:
  "fillRect surface100 (0 + (- 32768) + 1) 0 (- (- 32768)) 1 color = []"
  by (simp add: fillRect_def Let_def i16_def surface100_def)

theorem fillRect_negative_extent_counterexample:
  "sint (- 32768 :: int16) < 0
   \<and> fillRect surface100 0 0 (- 32768) 1 0x07E0
       \<noteq> fillRect surface100 (0 + (- 32768) + 1) 0 (- (- 32768)) 1 0x07E0"
proof -
  have l: "fillRect surface100 0 0 (- 32768) 1 0x07E0
           = writeFillRectPreclipped surface100 0 0 1 1 0x07E0"
    by (rule fillRect_min_width_left)
  have r: "fillRect surface100 (0 + (- 32768) + 1) 0 (- (- 32768)) 1 0x07E0 = []"
    by (rule fillRect_min_width_right)
  have "writeFillRectPreclipped surface100 0 0 1 1 0x07E0 \<noteq> []"
    by (simp add: writeFillRectPreclipped_def setAddrWindow_def)
  then show ?thesis
    unfolding l r by simp
qed

section \<open>Rejected requests\<close>

lemma accepted_axis:
  assumes "w \<noteq> 0"
    and near: "sint (norm_origin x w) < sint (bound :: int16)"
    and far: "0 \<le> sint (far_edge (norm_origin x w) (norm_extent w))"
  shows "near_side x w < sint bound \<and> 0 \<le> far_side x w"
proof (cases "sint w < 0")
  case True
  let ?n = "sint x + (sint w + 1)"
  from True far have f: "0 \<le> far_side x w"
    by (simp add: norm_far_edge far_side_def)
  have "?n < sint bound"
  proof (cases "- 32768 \<le> ?n")
    case True
    with \<open>sint w < 0\<close> sint16_le [of x] have "sint (i16 ?n) = ?n"
      by (intro sint_i16_id) simp_all
    with near \<open>sint w < 0\<close> show ?thesis
      by (simp add: norm_origin_def)
  next
    case False
    with sint16_ge [of bound] show ?thesis by simp
  qed
  with True f show ?thesis
    by (simp add: near_side_def)
next
  case False
  with assms(1) have pos: "0 < sint w"
    using sint16_eq_0 [of w] by simp
  let ?k = "sint x + sint w - 1"
  have "0 \<le> ?k"
  proof (cases "?k \<le> 32767")
    case True
    with pos sint16_ge [of x] have "sint (i16 ?k) = ?k"
      by (intro sint_i16_id) simp_all
    with far False show ?thesis
      by (simp add: far_edge_def norm_origin_def norm_extent_def)
  next
    case False
    then show ?thesis by simp
  qed
  with False near show ?thesis
    by (simp add: near_side_def far_side_def norm_origin_def)
qed

lemma overlap_axis:
  assumes "near_side x w < sint (bound :: int16)" "0 \<le> far_side x w" "far_side x w \<le> 32767"
  shows "sint (norm_origin x w) < sint bound
         \<and> 0 \<le> sint (far_edge (norm_origin x w) (norm_extent w))"
proof (cases "sint w < 0")
  case True
  let ?n = "sint x + (sint w + 1)"
  from True assms have "0 \<le> sint x" by (simp add: far_side_def)
  with True sint16_ge [of w] sint16_le [of x] have "sint (i16 ?n) = ?n"
    by (intro sint_i16_id) simp_all
  with True assms have "sint (norm_origin x w) < sint bound"
    by (simp add: norm_origin_def near_side_def)
  moreover from True \<open>0 \<le> sint x\<close> have "0 \<le> sint (far_edge (norm_origin x w) (norm_extent w))"
    by (simp only: norm_far_edge)
  ultimately show ?thesis by simp
next
  case False
  let ?k = "sint x + sint w - 1"
  from False assms have "sint (i16 ?k) = ?k"
    by (intro sint_i16_id) (simp_all add: far_side_def)
  with False assms show ?thesis
    by (simp add: far_edge_def norm_origin_def norm_extent_def near_side_def far_side_def)
qed

lemma accepted_overlaps:
  assumes "accepted st x y w h"
  shows "w \<noteq> 0 \<and> h \<noteq> 0 \<and> \<not> off_surface st x y w h"
proof -
  from assms have "w \<noteq> 0" "h \<noteq> 0"
    and nx: "sint (norm_origin x w) < sint (gfx_width st)"
    and ny: "sint (norm_origin y h) < sint (gfx_height st)"
    and fx: "0 \<le> sint (far_edge (norm_origin x w) (norm_extent w))"
    and fy: "0 \<le> sint (far_edge (norm_origin y h) (norm_extent h))"
    by (simp_all add: accepted_def)
  with accepted_axis [OF \<open>w \<noteq> 0\<close> nx fx] accepted_axis [OF \<open>h \<noteq> 0\<close> ny fy]
  show ?thesis by (simp add: off_surface_def)
qed

lemma overlap_accepted:
  assumes "w \<noteq> 0" "h \<noteq> 0" "\<not> off_surface st x y w h"
    and "far_side x w \<le> 32767" "far_side y h \<le> 32767"
  shows "accepted st x y w h"
proof -
  from assms(3) have "near_side x w < sint (gfx_width st)" "0 \<le> far_side x w"
    "near_side y h < sint (gfx_height st)" "0 \<le> far_side y h"
    by (simp_all add: off_surface_def)
  with assms overlap_axis [of x w "gfx_width st"] overlap_axis [of y h "gfx_height st"]
  show ?thesis by (simp add: accepted_def)
qed

lemma fillRect_rejected:
  "w = 0 \<or> h = 0 \<or> off_surface st x y w h \<Longrightarrow> fillRect st x y w h color = []"
  using accepted_overlaps [of st x y w h] by (auto simp add: fillRect_eq)

lemma fillRect_overlap_not_rejected:
  assumes "w \<noteq> 0" "h \<noteq> 0" "\<not> off_surface st x y w h"
    and "far_side x w \<le> 32767" "far_side y h \<le> 32767"
  shows "fillRect st x y w h color \<noteq> []"
  using overlap_accepted [OF assms]
  by (simp add: fillRect_eq writeFillRectPreclipped_def setAddrWindow_def)

lemma drawPixel_rejected:
  "sint x < 0 \<or> sint (gfx_width st) \<le> sint x \<or> sint y < 0 \<or> sint (gfx_height st) \<le> sint y
   \<Longrightarrow> drawPixel st x y color = []"
  by (auto simp add: drawPixel_def)

lemma drawFastHLine_eq:
  "drawFastHLine st x y w color =
     (if 0 \<le> sint y \<and> sint y < sint (gfx_height st) \<and> w \<noteq> 0
         \<and> sint (norm_origin x w) < sint (gfx_width st)
         \<and> 0 \<le> sint (far_edge (norm_origin x w) (norm_extent w))
      then writeFillRectPreclipped st (clip_origin (norm_origin x w)) y
             (clip_extent (gfx_width st) (norm_origin x w) (norm_extent w)) 1 color
      else [])"
  by (auto simp add: drawFastHLine_def norm_origin_def norm_extent_def far_edge_def
      clip_origin_def clip_extent_def Let_def)

lemma drawFastVLine_eq:
  "drawFastVLine st x y h color =
     (if 0 \<le> sint x \<and> sint x < sint (gfx_width st) \<and> h \<noteq> 0
         \<and> sint (norm_origin y h) < sint (gfx_height st)
         \<and> 0 \<le> sint (far_edge (norm_origin y h) (norm_extent h))
      then writeFillRectPreclipped st x (clip_origin (norm_origin y h)) 1
             (clip_extent (gfx_height st) (norm_origin y h) (norm_extent h)) color
      else [])"
  by (auto simp add: drawFastVLine_def norm_origin_def norm_extent_def far_edge_def
      clip_origin_def clip_extent_def Let_def)

lemma drawFastHLine_rejected:
  "w = 0 \<or> sint y < 0 \<or> sint (gfx_height st) \<le> sint y
   \<or> sint (gfx_width st) \<le> near_side x w \<or> far_side x w < 0
   \<Longrightarrow> drawFastHLine st x y w color = []"
  using accepted_axis [of w x "gfx_width st"] by (auto simp add: drawFastHLine_eq)

lemma drawFastVLine_rejected:
  "h = 0 \<or> sint x < 0 \<or> sint (gfx_width st) \<le> sint x
   \<or> sint (gfx_height st) \<le> near_side y h \<or> far_side y h < 0
   \<Longrightarrow> drawFastVLine st x y h color = []"
  using accepted_axis [of h y "gfx_height st"] by (auto simp add: drawFastVLine_eq)

lemma drawRGBBitmap_rejected:
  assumes "0 < sint w" "0 < sint h"
    and "sint (gfx_width st) \<le> sint x \<or> sint x + sint w - 1 < 0
         \<or> sint (gfx_height st) \<le> sint y \<or> sint y + sint h - 1 < 0"
  shows "drawRGBBitmap st mem x y pcolors w h = []"
proof -
  have x2: "sint (i16 (sint x + sint w - 1)) < 0" if "sint x + sint w - 1 < 0"
  proof -
    from that assms(1) sint16_ge [of x] have "sint (i16 (sint x + sint w - 1)) = sint x + sint w - 1"
      by (intro sint_i16_id) simp_all
    with that show ?thesis by simp
  qed
  have y2: "sint (i16 (sint y + sint h - 1)) < 0" if "sint y + sint h - 1 < 0"
  proof -
    from that assms(2) sint16_ge [of y] have "sint (i16 (sint y + sint h - 1)) = sint y + sint h - 1"
      by (intro sint_i16_id) simp_all
    with that show ?thesis by simp
  qed
  from assms(3) x2 y2 show ?thesis
    by (auto simp add: drawRGBBitmap_def Let_def)
qed

lemma drawRGBBitmap_rows_zero_width:
  "w = 0 \<Longrightarrow> drawRGBBitmap_rows st mem pcolors w saveW h = []"
proof (induction st mem pcolors w saveW h rule: drawRGBBitmap_rows.induct)
  case (1 st mem pcolors w saveW h)
  show ?case
  proof (cases "h = 0")
    case True
    then show ?thesis by (subst drawRGBBitmap_rows.simps) simp
  next
    case False
    with 1 show ?thesis
      by (subst drawRGBBitmap_rows.simps) (simp add: writePixels_def)
  qed
qed

text \<open>
  C2. The claim is that a self-contained drawing call whose request is rejected (zero
  width or height, or fully outside the surface) issues no event at all. \<open>drawPixel\<close>,
  \<open>fillRect\<close>, \<open>drawFastHLine\<close> and \<open>drawFastVLine\<close> do so (the lemmas above), and
  \<open>drawRGBBitmap\<close> does for a bitmap of positive size outside the surface. But
  \<open>drawRGBBitmap\<close> has no test for a zero width or height: on the 100 by 100 surface a
  bitmap of width 0 (or height 0) at \<open>(5, 5)\<close> still programs the addressing window,
  where \<open>fillRect\<close> with the same extents issues nothing.
\<close>

theorem drawRGBBitmap_zero_extent_not_rejected:
  "drawRGBBitmap surface100 mem 5 5 pcolors 0 3 = [SetAddrWindow 5 5 0 3]
   \<and> drawRGBBitmap surface100 mem 5 5 pcolors 3 0 = [SetAddrWindow 5 5 3 0]
   \<and> fillRect surface100 5 5 0 3 color = []
   \<and> fillRect surface100 5 5 3 0 color = []"
proof -
  have "drawRGBBitmap surface100 mem 5 5 pcolors 0 3 = [SetAddrWindow 5 5 0 3]"
    by (simp add: drawRGBBitmap_def Let_def i16_def surface100_def setAddrWindow_def
        drawRGBBitmap_rows_zero_width)
  moreover have "drawRGBBitmap_rows surface100 mem pcolors 3 3 0 = []"
    by (subst drawRGBBitmap_rows.simps) simp
  then have "drawRGBBitmap surface100 mem 5 5 pcolors 3 0 = [SetAddrWindow 5 5 3 0]"
    by (simp add: drawRGBBitmap_def Let_def i16_def surface100_def setAddrWindow_def)
  moreover have "fillRect surface100 5 5 0 3 color = []"
    by (simp add: fillRect_def)
  moreover have "fillRect surface100 5 5 3 0 color = []"
    by (simp add: fillRect_def)
  ultimately show ?thesis by simp
qed

section \<open>Rectangle fills stay on the surface\<close>

text \<open>
  \<open>writeFillRect\<close> issues the events of \<open>fillRect\<close>. Whenever \<open>fillRect\<close> does not reject
  its request on a surface of positive width and height, it makes exactly one call of
  \<open>writeFillRectPreclipped\<close>, with a rectangle \<open>(x', y', w', h')\<close> inside
  \<open>[0,width) x [0,height)\<close>, \<open>w' > 0\<close> and \<open>h' > 0\<close>, and the trace is the window
  programming followed by exactly \<open>w' * h'\<close> pixel writes of the fill colour. A request
  that overlaps the surface, and whose greatest coordinates fit \<open>int16_t\<close>, is not
  rejected.
\<close>

lemma fillRect_passes_clipped_rectangle:
  "writeFillRect st x y w h color = fillRect st x y w h color
   \<and> (0 < sint (gfx_width st) \<and> 0 < sint (gfx_height st) \<and> fillRect st x y w h color \<noteq> [] \<longrightarrow>
      (\<exists>x' y' w' h'.
          fillRect st x y w h color = writeFillRectPreclipped st x' y' w' h' color
        \<and> fillRect st x y w h color
            = SetAddrWindow x' y' w' h'
              # concat (replicate (nat (sint w' * sint h')) (SPI_WRITE16 st color))
        \<and> 0 \<le> sint x' \<and> 0 \<le> sint y' \<and> 0 < sint w' \<and> 0 < sint h'
        \<and> sint x' + sint w' \<le> sint (gfx_width st)
        \<and> sint y' + sint h' \<le> sint (gfx_height st)))
   \<and> (w \<noteq> 0 \<and> h \<noteq> 0 \<and> \<not> off_surface st x y w h
        \<and> far_side x w \<le> 32767 \<and> far_side y h \<le> 32767 \<longrightarrow>
          fillRect st x y w h color \<noteq> [])
   \<and> (gfx_width st = 100 \<and> gfx_height st = 100 \<longrightarrow>
          fillRect st (- 10) 50 30 10 0x07E0 = writeFillRectPreclipped st 0 50 20 10 0x07E0
        \<and> fillRect st (- 10) 50 30 10 0x07E0
            = SetAddrWindow 0 50 20 10 # concat (replicate 200 (SPI_WRITE16 st 0x07E0))
        \<and> bus_bytes (fillRect st (- 10) 50 30 10 0x07E0) = concat (replicate 200 [0x07, 0xE0]))"
proof (intro conjI impI)
  show "writeFillRect st x y w h color = fillRect st x y w h color"
    by (simp add: fillRect_def writeFillRect_def)
next
  assume a: "0 < sint (gfx_width st) \<and> 0 < sint (gfx_height st) \<and> fillRect st x y w h color \<noteq> []"
  let ?x = "clip_origin (norm_origin x w)" and ?y = "clip_origin (norm_origin y h)"
  let ?w = "clip_extent (gfx_width st) (norm_origin x w) (norm_extent w)"
  let ?h = "clip_extent (gfx_height st) (norm_origin y h) (norm_extent h)"
  from a have acc: "accepted st x y w h"
    by (simp add: fillRect_eq split: if_splits)
  then have call: "fillRect st x y w h color = writeFillRectPreclipped st ?x ?y ?w ?h color"
    by (simp add: fillRect_eq)
  from a have pos: "0 < sint (gfx_width st)" "0 < sint (gfx_height st)"
    by simp_all
  have bx: "0 \<le> sint ?x \<and> 0 < sint ?w \<and> sint ?x + sint ?w \<le> sint (gfx_width st)"
    by (rule fillRect_accepted_bounds(1) [OF pos acc])
  have by': "0 \<le> sint ?y \<and> 0 < sint ?h \<and> sint ?y + sint ?h \<le> sint (gfx_height st)"
    by (rule fillRect_accepted_bounds(2) [OF pos acc])
  from bx by' have "writeFillRectPreclipped st ?x ?y ?w ?h color
      = SetAddrWindow ?x ?y ?w ?h # concat (replicate (nat (sint ?w * sint ?h)) (SPI_WRITE16 st color))"
    by (intro writeFillRectPreclipped_trace) simp_all
  with call bx by' show "\<exists>x' y' w' h'.
          fillRect st x y w h color = writeFillRectPreclipped st x' y' w' h' color
        \<and> fillRect st x y w h color
            = SetAddrWindow x' y' w' h'
              # concat (replicate (nat (sint w' * sint h')) (SPI_WRITE16 st color))
        \<and> 0 \<le> sint x' \<and> 0 \<le> sint y' \<and> 0 < sint w' \<and> 0 < sint h'
        \<and> sint x' + sint w' \<le> sint (gfx_width st)
        \<and> sint y' + sint h' \<le> sint (gfx_height st)"
    by metis
next
  assume "w \<noteq> 0 \<and> h \<noteq> 0 \<and> \<not> off_surface st x y w h
        \<and> far_side x w \<le> 32767 \<and> far_side y h \<le> 32767"
  then show "fillRect st x y w h color \<noteq> []"
    by (intro fillRect_overlap_not_rejected) simp_all
next
  assume s: "gfx_width st = 100 \<and> gfx_height st = 100"
  then show e: "fillRect st (- 10) 50 30 10 0x07E0 = writeFillRectPreclipped st 0 50 20 10 0x07E0"
    by (simp add: fillRect_scenario)
  have t: "writeFillRectPreclipped st 0 50 20 10 0x07E0
      = SetAddrWindow 0 50 20 10 # concat (replicate (nat (sint (20 :: int16) * sint (10 :: int16))) (SPI_WRITE16 st 0x07E0))"
    by (intro writeFillRectPreclipped_trace) simp_all
  from e t show f: "fillRect st (- 10) 50 30 10 0x07E0
            = SetAddrWindow 0 50 20 10 # concat (replicate 200 (SPI_WRITE16 st 0x07E0))"
    by simp
  have b: "bus_bytes (SPI_WRITE16 st 0x07E0) = [0x07, 0xE0]"
    by (simp add: bus_bytes_SPI_WRITE16)
  show "bus_bytes (fillRect st (- 10) 50 30 10 0x07E0) = concat (replicate 200 [0x07, 0xE0])"
    unfolding f by (simp add: bus_bytes_concat_replicate b)
qed

lemma fillRect_far_edge_overflow:
  "fillRect surface100 50 0 32767 1 color = []"
  by (simp add: fillRect_def Let_def i16_def surface100_def)

text \<open>
  C1. The claim is that every \<open>fillRect\<close> (or \<open>writeFillRect\<close>) request that overlaps the
  surface passes a rectangle inside the surface to \<open>writeFillRectPreclipped\<close> and issues
  as many pixel writes as the rectangle has pixels. It holds for the scenario
  \<open>fillRect(-10, 50, 30, 10, 0x07E0)\<close> on the 100 by 100 surface, and for every request
  whose greatest coordinates fit \<open>int16_t\<close> (the lemma above). But the far edge
  \<open>x2 = x + w - 1\<close> is stored in an \<open>int16_t\<close>: for \<open>fillRect(50, 0, 32767, 1, c)\<close>, which
  covers the columns 50 to 99 of row 0, it is 32816, narrowed to -32720, and the
  request is dropped by the test commented "Not off left". No rectangle is passed and
  no pixel is written, where the clipped rectangle is \<open>(50, 0, 50, 1)\<close>.
\<close>

theorem fillRect_drops_overlapping_request:
  "near_side 50 32767 = 50 \<and> far_side 50 32767 = 32816
   \<and> near_side 0 1 = 0 \<and> far_side 0 1 = 0
   \<and> \<not> off_surface surface100 50 0 32767 1
   \<and> sint (far_edge 50 32767) = - 32720
   \<and> fillRect surface100 50 0 32767 1 0x07E0 = []
   \<and> writeFillRect surface100 50 0 32767 1 0x07E0 = []
   \<and> fillRect surface100 50 0 32767 1 0x07E0
       \<noteq> writeFillRectPreclipped surface100 50 0 50 1 0x07E0
   \<and> fillRect surface100 (- 10) 50 30 10 0x07E0
       = SetAddrWindow 0 50 20 10 # concat (replicate 200 (SPI_WRITE16 surface100 0x07E0))"
proof -
  have n: "near_side 50 32767 = 50 \<and> far_side 50 32767 = 32816
      \<and> near_side 0 1 = 0 \<and> far_side 0 1 = 0"
    by (simp add: near_side_def far_side_def)
  have o: "\<not> off_surface surface100 50 0 32767 1"
    by (simp add: off_surface_def near_side_def far_side_def surface100_def)
  have f: "sint (far_edge 50 32767) = - 32720"
    by (simp add: far_edge_def i16_def)
  have e: "fillRect surface100 50 0 32767 1 0x07E0 = []"
    by (rule fillRect_far_edge_overflow)
  have w: "writeFillRect surface100 50 0 32767 1 0x07E0 = []"
    using e by (simp add: fillRect_def writeFillRect_def)
  have p: "writeFillRectPreclipped surface100 50 0 50 1 0x07E0 \<noteq> []"
    by (simp add: writeFillRectPreclipped_def setAddrWindow_def)
  have s: "fillRect surface100 (- 10) 50 30 10 0x07E0
       = SetAddrWindow 0 50 20 10 # concat (replicate 200 (SPI_WRITE16 surface100 0x07E0))"
  proof -
    have "fillRect surface100 (- 10) 50 30 10 0x07E0
          = writeFillRectPreclipped surface100 0 50 20 10 0x07E0"
      by (intro fillRect_scenario) (simp_all add: surface100_def)
    moreover have "writeFillRectPreclipped surface100 0 50 20 10 0x07E0
      = SetAddrWindow 0 50 20 10
        # concat (replicate (nat (sint (20 :: int16) * sint (10 :: int16)))
            (SPI_WRITE16 surface100 0x07E0))"
      by (intro writeFillRectPreclipped_trace) simp_all
    ultimately show ?thesis by simp
  qed
  from n o f e w p s show ?thesis by simp
qed

end
